theory Spec2Isabelle
  imports Main "HOL-Library.AList"
begin

section \<open>ElementSet: a set of hydrated elements synchronised with a replicated entry list\<close>

text \<open>
  The development embeds the class \<open>ElementSet\<close>. An instance holds three collaborators
  (\<open>cache\<close>, \<open>emitter\<close>, \<open>syncher\<close>) and the JavaScript \<open>Map\<close> \<open>elementsById\<close>.
  Every method becomes a function from the instance state to an outcome and the updated
  state. An outcome tells a synchronous return or throw apart from a promise that
  resolves or rejects.
\<close>

subsection \<open>Values\<close>

type_synonym ident = string

text \<open>
  The \<open>group\<close> of an entry or of an options object is a string, \<open>null\<close>, or
  \<open>undefined\<close>. A property that is missing from an object reads as \<open>undefined\<close>.
\<close>

datatype group = Undefined | Null | Tag string

datatype error = InvalidConfiguration | TypeError | HydrationFailure | ReplicationFailure

datatype 'a outcome = Returns 'a | Throws error | Resolves 'a | Rejects error

text \<open>
  An element exposes \<open>id()\<close> and \<open>live()\<close>; \<open>ele_synch\<close> is the way the promise of
  \<open>ele.synch(true)\<close> settles: \<open>None\<close> when it resolves, \<open>Some e\<close> when it rejects with \<open>e\<close>.
  The set keeps references to elements and never looks inside them otherwise.
\<close>

record element =
  ele_id :: ident
  ele_live :: bool
  ele_synch :: "error option"

text \<open>
  The \<open>ele\<close> argument of the methods is either a bare id (a string) or an element object.
  The same values are the keys and the values of the \<open>Map\<close>.
\<close>

datatype jsval = IdV ident | EleV element

record entry =
  entry_id :: ident
  entry_group :: group

type_synonym index = "(jsval \<times> jsval) list"

datatype evname =
  Add | RemoteAdd | LocalAdd | Remove | RemoteRemove | LocalRemove
  | Regroup | RemoteRegroup | LocalRegroup | LoadElements

text \<open>
  \<open>Event evt ele group oldGroup\<close> is one call \<open>emitter.emit(evt, ele, group, oldGroup)\<close>;
  an \<open>ele\<close> argument that is \<open>undefined\<close> is \<open>None\<close>.
\<close>

datatype event = Event evname "jsval option" group group

text \<open>The options object of \<open>add\<close>, \<open>remove\<close> and \<open>regroup\<close>: \<open>{ silent, group }\<close>.\<close>

record opts =
  opt_silent :: bool
  opt_group :: group

definition no_opts :: opts where
  "no_opts = \<lparr>opt_silent = False, opt_group = Undefined\<rparr>"

subsection \<open>Collaborators\<close>

text \<open>
  The syncher after construction: \<open>sy_entries\<close> is \<open>syncher.get('entries')\<close>, \<open>sy_live\<close> is
  \<open>syncher.live\<close>, \<open>sy_listeners\<close> counts the handlers subscribed with
  \<open>syncher.on('remoteupdate', ...)\<close>, and \<open>sy_fail\<close> is the way the promise of the next
  store operation settles (\<open>None\<close>: it resolves).
\<close>

record syncher =
  sy_entries :: "entry list"
  sy_live :: bool
  sy_listeners :: nat
  sy_fail :: "error option"

text \<open>
  The syncher as the constructor receives it: \<open>get('entries')\<close> may be \<open>undefined\<close>
  (\<open>None\<close>). An array, also an empty one, is truthy in JavaScript.
\<close>

record syncher_handle =
  h_entries :: "entry list option"
  h_live :: bool
  h_listeners :: nat
  h_fail :: "error option"

text \<open>
  The emitter is represented by its publication log. Listeners run synchronously inside
  \<open>emit\<close> and can read the set, so every published event is logged together with the
  \<open>Map\<close> a listener sees at that moment.
\<close>

type_synonym emitter = "(event \<times> index) list"

text \<open>\<open>cache.load(id)\<close>: \<open>Inr ele\<close> when its promise resolves with \<open>ele\<close>, \<open>Inl e\<close> when it rejects.\<close>

type_synonym cache = "ident \<Rightarrow> error + element"

record constructor_opts =
  o_emitter :: "emitter option"
  o_syncher :: "syncher_handle option"
  o_cache :: "cache option"

record elementset =
  cache :: cache
  emitter :: emitter
  syncher :: syncher
  elementsById :: index

subsection \<open>The JavaScript Map\<close>

text \<open>
  \<open>Map.set\<close> replaces the value of a key that is present and appends a new key otherwise;
  \<open>Map.delete\<close> removes the key; \<open>Map.size\<close> counts the keys. The association list keeps
  its keys distinct under these two operations, so its length is the size.
\<close>

definition map_set :: "jsval \<Rightarrow> jsval \<Rightarrow> index \<Rightarrow> index" where
  "map_set k v m = AList.update k v m"

definition map_delete :: "jsval \<Rightarrow> index \<Rightarrow> index" where
  "map_delete k m = AList.delete k m"

definition map_get :: "index \<Rightarrow> jsval \<Rightarrow> jsval option" where
  "map_get m k = map_of m k"

definition map_has :: "index \<Rightarrow> jsval \<Rightarrow> bool" where
  "map_has m k = (map_of m k \<noteq> None)"

subsection \<open>Helpers that are not part of the class\<close>

text \<open>
  Modelled from the spec: \<open>getId\<close> of the \<open>util\<close> module, which is not among the sources.
  Id resolution is uniform: a bare id is its own id and an object answers with \<open>id()\<close>.
\<close>

fun getId :: "jsval \<Rightarrow> ident" where
  "getId (IdV i) = i"
| "getId (EleV e) = ele_id e"

text \<open>JavaScript truthiness on the values that occur: the empty string is falsy.\<close>

fun truthy_group :: "group \<Rightarrow> bool" where
  "truthy_group Undefined = False"
| "truthy_group Null = False"
| "truthy_group (Tag t) = (t \<noteq> [])"

fun truthy_val :: "jsval \<Rightarrow> bool" where
  "truthy_val (IdV i) = (i \<noteq> [])"
| "truthy_val (EleV e) = True"

text \<open>
  Loose equality \<open>==\<close> on groups: \<open>null\<close> and \<open>undefined\<close> are equal to each other and to
  nothing else; two strings are equal when they are the same string.
\<close>

definition isNil :: "group \<Rightarrow> bool" where
  "isNil g = (g = Undefined \<or> g = Null)"

definition loose_eq :: "group \<Rightarrow> group \<Rightarrow> bool" where
  "loose_eq a b = (a = b \<or> (isNil a \<and> isNil b))"

text \<open>\<open>.filter( nonNil )\<close> on an array whose \<open>undefined\<close> members are \<open>None\<close>.\<close>

fun filter_nonNil :: "'a option list \<Rightarrow> 'a list" where
  "filter_nonNil [] = []"
| "filter_nonNil (None # xs) = filter_nonNil xs"
| "filter_nonNil (Some v # xs) = v # filter_nonNil xs"

text \<open>
  lodash: \<open>_.differenceBy(xs, ys, f)\<close> keeps, in order, the members of \<open>xs\<close> whose \<open>f\<close>
  value no member of \<open>ys\<close> has. \<open>_.intersectionBy(xs, ys, f)\<close> keeps the members of \<open>xs\<close>
  whose \<open>f\<close> value some member of \<open>ys\<close> has, the first one for each \<open>f\<close> value.
\<close>

definition differenceBy :: "'a list \<Rightarrow> 'a list \<Rightarrow> ('a \<Rightarrow> 'b) \<Rightarrow> 'a list" where
  "differenceBy xs ys f = filter (\<lambda>x. f x \<notin> set (map f ys)) xs"

fun uniqBy :: "('a \<Rightarrow> 'b) \<Rightarrow> 'b list \<Rightarrow> 'a list \<Rightarrow> 'a list" where
  "uniqBy f seen [] = []"
| "uniqBy f seen (x # xs) =
     (if f x \<in> set seen then uniqBy f seen xs else x # uniqBy f (f x # seen) xs)"

definition intersectionBy :: "'a list \<Rightarrow> 'a list \<Rightarrow> ('a \<Rightarrow> 'b) \<Rightarrow> 'a list" where
  "intersectionBy xs ys f = uniqBy f [] (filter (\<lambda>x. f x \<in> set (map f ys)) xs)"

subsection \<open>The store operations\<close>

text \<open>
  Modelled from the spec: \<open>push\<close>, \<open>pullById\<close> and \<open>mergeById\<close> of the \<open>Syncher\<close> class, which
  is not among the sources. \<open>push\<close> appends a value to a replicated list field, \<open>pullById\<close>
  removes a record by id, \<open>mergeById\<close> patches a record in place by id (the first record
  with that id). Each returns a promise; when the store rejects, the field is taken to be
  unchanged. The \<open>silent\<close> flag only suppresses the store's own notifications.
\<close>

fun patch_first :: "ident \<Rightarrow> group \<Rightarrow> entry list \<Rightarrow> entry list" where
  "patch_first i g [] = []"
| "patch_first i g (en # ens) =
     (if entry_id en = i then en\<lparr>entry_group := g\<rparr> # ens else en # patch_first i g ens)"

fun pull_first :: "ident \<Rightarrow> entry list \<Rightarrow> entry list" where
  "pull_first i [] = []"
| "pull_first i (en # ens) = (if entry_id en = i then ens else en # pull_first i ens)"

definition push :: "entry \<Rightarrow> bool \<Rightarrow> syncher \<Rightarrow> unit outcome \<times> syncher" where
  "push en silent sy =
     (case sy_fail sy of
        Some e \<Rightarrow> (Rejects e, sy)
      | None \<Rightarrow> (Resolves (), sy\<lparr>sy_entries := sy_entries sy @ [en]\<rparr>))"

definition pullById :: "ident \<Rightarrow> bool \<Rightarrow> syncher \<Rightarrow> unit outcome \<times> syncher" where
  "pullById i silent sy =
     (case sy_fail sy of
        Some e \<Rightarrow> (Rejects e, sy)
      | None \<Rightarrow> (Resolves (), sy\<lparr>sy_entries := pull_first i (sy_entries sy)\<rparr>))"

definition mergeById :: "ident \<Rightarrow> group \<Rightarrow> bool \<Rightarrow> syncher \<Rightarrow> unit outcome \<times> syncher" where
  "mergeById i g silent sy =
     (case sy_fail sy of
        Some e \<Rightarrow> (Rejects e, sy)
      | None \<Rightarrow> (Resolves (), sy\<lparr>sy_entries := patch_first i g (sy_entries sy)\<rparr>))"

subsection \<open>Publishing\<close>

definition emit :: "event \<Rightarrow> elementset \<Rightarrow> elementset" where
  "emit ev s = s\<lparr>emitter := emitter s @ [(ev, elementsById s)]\<rparr>"

subsection \<open>Reads\<close>

definition has :: "elementset \<Rightarrow> jsval \<Rightarrow> bool" where
  "has s ele = map_has (elementsById s) (IdV (getId ele))"

definition get :: "elementset \<Rightarrow> jsval \<Rightarrow> jsval option" where
  "get s ele = map_get (elementsById s) (IdV (getId ele))"

definition size_es :: "elementset \<Rightarrow> nat" where
  "size_es s = length (elementsById s)"

definition matches :: "group \<Rightarrow> entry \<Rightarrow> bool" where
  "matches g en = (loose_eq g Null \<or> loose_eq (entry_group en) g)"

definition elements :: "elementset \<Rightarrow> group \<Rightarrow> jsval list" where
  "elements s g =
     filter_nonNil
       (map (\<lambda>en. get s (IdV (entry_id en))) (filter (matches g) (sy_entries (syncher s))))"

text \<open>
  \<open>group( ele )\<close>: \<open>filter(...)[0]\<close> is \<open>undefined\<close> when no entry has the id, and reading
  \<open>.group\<close> of it throws a \<open>TypeError\<close>.
\<close>

definition group_es :: "elementset \<Rightarrow> jsval \<Rightarrow> group outcome" where
  "group_es s ele =
     (if \<not> has s ele then Returns Undefined
      else (case filter (\<lambda>ent. entry_id ent = getId ele) (sy_entries (syncher s)) of
              [] \<Rightarrow> Throws TypeError
            | ent # _ \<Rightarrow> Returns (entry_group ent)))"

subsection \<open>Construction\<close>

text \<open>
  Modelled from the spec: \<open>assertFieldsDefined\<close> and \<open>error\<close> of the \<open>util\<close> module, which
  are not among the sources. A missing collaborator and a syncher without \<open>entries\<close> both
  throw the configuration error. On success the instance starts with an empty \<open>Map\<close> and
  one more \<open>remoteupdate\<close> handler is subscribed to the syncher.
\<close>

definition ElementSet :: "constructor_opts \<Rightarrow> error + elementset" where
  "ElementSet opts =
     (case (o_emitter opts, o_syncher opts, o_cache opts) of
        (Some em, Some h, Some c) \<Rightarrow>
          (case h_entries h of
             None \<Rightarrow> Inl InvalidConfiguration
           | Some ens \<Rightarrow>
               Inr \<lparr>cache = c, emitter = em,
                    syncher = \<lparr>sy_entries = ens, sy_live = h_live h,
                               sy_listeners = Suc (h_listeners h), sy_fail = h_fail h\<rparr>,
                    elementsById = []\<rparr>)
      | _ \<Rightarrow> Inl InvalidConfiguration)"

subsection \<open>Hydration\<close>

text \<open>
  \<open>maybeSynchElement\<close>: the element is synchronised when the syncher is live and the
  element is not; the promise resolves with the element itself.
\<close>

definition maybeSynchElement :: "bool \<Rightarrow> element \<Rightarrow> error + element" where
  "maybeSynchElement live ele =
     (if live \<and> \<not> ele_live ele
      then (case ele_synch ele of Some e \<Rightarrow> Inl e | None \<Rightarrow> Inr ele)
      else Inr ele)"

text \<open>
  \<open>loadElements\<close>: each entry runs \<open>load\<close>, then \<open>add\<close>, then \<open>synch\<close>. The pipelines are
  independent, so one that rejects does not stop the others; they are run here in entry
  order, and the error kept is the one of the first entry that rejects (the code rejects
  with the rejection that settles first in time; nothing proved below depends on which
  error it is). \<open>Promise.all\<close> resolves only when every pipeline has resolved, and only
  then \<open>loadelements\<close> is emitted.
\<close>

definition fillInEntry :: "bool \<Rightarrow> cache \<Rightarrow> entry \<Rightarrow> index \<Rightarrow> error option \<times> index" where
  "fillInEntry live c en m =
     (case c (entry_id en) of
        Inl e \<Rightarrow> (Some e, m)
      | Inr ele \<Rightarrow>
          (let m' = map_set (IdV (ele_id ele)) (EleV ele) m
           in (case maybeSynchElement live ele of Inl e \<Rightarrow> (Some e, m') | Inr _ \<Rightarrow> (None, m'))))"

fun fillInEntries :: "bool \<Rightarrow> cache \<Rightarrow> entry list \<Rightarrow> index \<Rightarrow> error option \<times> index" where
  "fillInEntries live c [] m = (None, m)"
| "fillInEntries live c (en # ens) m =
     (case fillInEntry live c en m of
        (r, m') \<Rightarrow>
          (case fillInEntries live c ens m' of
             (rs, m'') \<Rightarrow> ((case r of Some e \<Rightarrow> Some e | None \<Rightarrow> rs), m'')))"

definition loadElements :: "elementset \<Rightarrow> unit outcome \<times> elementset" where
  "loadElements s =
     (case fillInEntries (sy_live (syncher s)) (cache s) (sy_entries (syncher s)) (elementsById s) of
        (Some e, m) \<Rightarrow> (Rejects e, s\<lparr>elementsById := m\<rparr>)
      | (None, m) \<Rightarrow>
          (Resolves (), emit (Event LoadElements None Undefined Undefined) (s\<lparr>elementsById := m\<rparr>)))"

subsection \<open>Local mutation\<close>

definition add :: "elementset \<Rightarrow> jsval \<Rightarrow> opts \<Rightarrow> unit outcome \<times> elementset" where
  "add s ele opts =
     (if has s ele then (Resolves (), s)
      else
        (let i = getId ele;
             silent = opt_silent opts;
             g = opt_group opts;
             s1 = s\<lparr>elementsById := map_set (IdV i) ele (elementsById s)\<rparr>;
             en = \<lparr>entry_id = i, entry_group = (if truthy_group g then g else Undefined)\<rparr>
         in (case push en silent (syncher s1) of
               (updatePromise, sy') \<Rightarrow>
                 (let s2 = s1\<lparr>syncher := sy'\<rparr>
                  in (updatePromise,
                      if \<not> silent
                      then emit (Event LocalAdd (Some ele) g Undefined)
                             (emit (Event Add (Some ele) g Undefined) s2)
                      else s2)))))"

text \<open>
  \<open>remove\<close>: the key is deleted from the \<open>Map\<close> first; then the entry is looked up, and
  reading \<open>.group\<close> of an entry that \<open>find\<close> did not find throws a \<open>TypeError\<close>.
\<close>

definition remove :: "elementset \<Rightarrow> jsval \<Rightarrow> opts \<Rightarrow> unit outcome \<times> elementset" where
  "remove s ele opts =
     (if \<not> has s ele then (Resolves (), s)
      else
        (let i = getId ele;
             silent = opt_silent opts;
             ele' = (if IdV i = ele then get s (IdV i) else Some ele);
             s1 = s\<lparr>elementsById := map_delete (IdV i) (elementsById s)\<rparr>
         in (case find (\<lambda>en. entry_id en = i) (sy_entries (syncher s1)) of
               None \<Rightarrow> (Throws TypeError, s1)
             | Some en \<Rightarrow>
                 (let g = entry_group en
                  in (case pullById i silent (syncher s1) of
                        (updatePromise, sy') \<Rightarrow>
                          (let s2 = s1\<lparr>syncher := sy'\<rparr>
                           in (updatePromise,
                               if \<not> silent
                               then emit (Event LocalRemove ele' g Undefined)
                                      (emit (Event Remove ele' g Undefined) s2)
                               else s2)))))))"

text \<open>
  \<open>regroup( ele, opts )\<close> has no default for \<open>opts\<close>: destructuring an \<open>opts\<close> that was not
  passed (\<open>None\<close>) throws a \<open>TypeError\<close>, after the old group has been read.
\<close>

definition regroup :: "elementset \<Rightarrow> jsval \<Rightarrow> opts option \<Rightarrow> unit outcome \<times> elementset" where
  "regroup s ele optsO =
     (if \<not> has s ele then (Resolves (), s)
      else
        (case group_es s ele of
           Returns oldGroup \<Rightarrow>
             (case optsO of
                None \<Rightarrow> (Throws TypeError, s)
              | Some opts \<Rightarrow>
                  (let i = getId ele;
                       silent = opt_silent opts;
                       ele' = (if IdV i = ele then get s (IdV i) else Some ele);
                       g = (if opt_group opts = Undefined then Null else opt_group opts)
                   in (case mergeById i g silent (syncher s) of
                         (updatePromise, sy') \<Rightarrow>
                           (let s1 = s\<lparr>syncher := sy'\<rparr>
                            in (updatePromise,
                                if \<not> silent
                                then emit (Event LocalRegroup ele' g oldGroup)
                                       (emit (Event Regroup ele' g oldGroup) s1)
                                else s1)))))
         | Throws e \<Rightarrow> (Throws e, s)
         | Resolves _ \<Rightarrow> (Throws TypeError, s)
         | Rejects e \<Rightarrow> (Throws e, s)))"

subsection \<open>The remoteupdate handler\<close>

text \<open>
  \<open>fillEntries\<close>: \<open>Promise.all\<close> over \<open>load\<close>, then \<open>liven\<close>, for every added entry; it
  resolves with the pairs in the order of the entries and rejects when one of them rejects.
  \<open>Promise.all\<close> rejects with the rejection that settles first in time; the error kept
  here is the one of the first rejecting entry in entry order, and nothing proved below
  depends on which error it is.
\<close>

fun fillEntries :: "bool \<Rightarrow> cache \<Rightarrow> entry list \<Rightarrow> error + (jsval \<times> entry) list" where
  "fillEntries live c [] = Inr []"
| "fillEntries live c (en # ens) =
     (case c (entry_id en) of
        Inl e \<Rightarrow> Inl e
      | Inr ele \<Rightarrow>
          (case maybeSynchElement live ele of
             Inl e \<Rightarrow> Inl e
           | Inr ele' \<Rightarrow>
               (case fillEntries live c ens of
                  Inl e \<Rightarrow> Inl e
                | Inr fs \<Rightarrow> Inr ((EleV ele', en) # fs))))"

text \<open>The removed entries are filled synchronously from the \<open>Map\<close>; a falsy value is dropped.\<close>

fun filledRemoved :: "index \<Rightarrow> entry list \<Rightarrow> (jsval \<times> entry) list" where
  "filledRemoved m [] = []"
| "filledRemoved m (en # ens) =
     (case map_get m (IdV (entry_id en)) of
        Some ele \<Rightarrow>
          (if truthy_val ele then (ele, en) # filledRemoved m ens else filledRemoved m ens)
      | None \<Rightarrow> filledRemoved m ens)"

text \<open>
  The first \<open>then\<close>: \<open>add( f.ele, f.entry )\<close> is \<open>elementsById.set( getId( ele ), ele )\<close>, and
  \<open>remove( f.ele, f.entry )\<close> is \<open>elementsById.delete( id )\<close> with the element itself bound
  to \<open>id\<close>.
\<close>

fun commitAdded :: "(jsval \<times> entry) list \<Rightarrow> index \<times> event list \<Rightarrow> index \<times> event list" where
  "commitAdded [] st = st"
| "commitAdded ((ele, en) # fs) (m, emits) =
     commitAdded fs
       (map_set (IdV (getId ele)) ele m,
        emits @ [Event Add (Some ele) (entry_group en) Undefined,
                 Event RemoteAdd (Some ele) (entry_group en) Undefined])"

fun commitRemoved :: "(jsval \<times> entry) list \<Rightarrow> index \<times> event list \<Rightarrow> index \<times> event list" where
  "commitRemoved [] st = st"
| "commitRemoved ((ele, en) # fs) (m, emits) =
     commitRemoved fs
       (map_delete ele m,
        emits @ [Event Remove (Some ele) (entry_group en) Undefined,
                 Event RemoteRemove (Some ele) (entry_group en) Undefined])"

text \<open>
  The second \<open>then\<close>: for every entry on both sides the old and the new entry are found
  by id and compared with \<open>!==\<close>. Reading \<open>.group\<close> of an entry that was not found throws,
  which rejects the chain.
\<close>

fun regroupEmits ::
  "index \<Rightarrow> entry list \<Rightarrow> entry list \<Rightarrow> entry list \<Rightarrow> event list \<Rightarrow> error + event list" where
  "regroupEmits m new old [] emits = Inr emits"
| "regroupEmits m new old (ent # rest) emits =
     (let i = entry_id ent; ele = map_get m (IdV i)
      in (case (find (\<lambda>e. entry_id e = i) old, find (\<lambda>e. entry_id e = i) new) of
            (Some oldEnt, Some newEnt) \<Rightarrow>
              regroupEmits m new old rest
                (if entry_group newEnt \<noteq> entry_group oldEnt
                 then emits @ [Event Regroup ele (entry_group newEnt) (entry_group oldEnt),
                               Event RemoteRegroup ele (entry_group newEnt) (entry_group oldEnt)]
                 else emits)
          | _ \<Rightarrow> Inl TypeError))"

fun dequeueEmits :: "event list \<Rightarrow> elementset \<Rightarrow> elementset" where
  "dequeueEmits [] s = s"
| "dequeueEmits (ev # evs) s = dequeueEmits evs (emit ev s)"

text \<open>
  The handler, for one \<open>remoteupdate\<close> with \<open>changes.entries\<close> (\<open>None\<close> when the update does
  not touch the entries) and \<open>old.entries\<close>. The diff is processed without another call on
  the set running in between. The handler does not write to the syncher.
\<close>

definition remoteupdate ::
  "elementset \<Rightarrow> entry list option \<Rightarrow> entry list \<Rightarrow> unit outcome \<times> elementset" where
  "remoteupdate s changes old =
     (case changes of
        None \<Rightarrow> (Returns (), s)
      | Some new \<Rightarrow>
          (let addedEntries = differenceBy new old entry_id;
               removedEntries = differenceBy old new entry_id;
               sameEntries = intersectionBy new old entry_id;
               fr = filledRemoved (elementsById s) removedEntries
           in (case fillEntries (sy_live (syncher s)) (cache s) addedEntries of
                 Inl e \<Rightarrow> (Rejects e, s)
               | Inr filledAdded \<Rightarrow>
                   (case commitRemoved fr (commitAdded filledAdded (elementsById s, [])) of
                      (m, emits) \<Rightarrow>
                        (let s1 = s\<lparr>elementsById := m\<rparr>
                         in (case regroupEmits m new old sameEntries emits of
                               Inl e \<Rightarrow> (Rejects e, s1)
                             | Inr emits' \<Rightarrow> (Resolves (), dequeueEmits emits' s1)))))))"

subsection \<open>What the views and the event batches are expected to be\<close>

text \<open>
  The hydrated objects of a list of entries, in the order of the entries: the value the
  \<open>Map\<close> holds for the entry's id, and nothing for an id the \<open>Map\<close> does not hold.
\<close>

definition hydrated :: "elementset \<Rightarrow> entry list \<Rightarrow> jsval list" where
  "hydrated s ens =
     concat (map (\<lambda>en. case map_of (elementsById s) (IdV (entry_id en)) of
                          None \<Rightarrow> [] | Some v \<Rightarrow> [v]) ens)"

text \<open>The pair of events of one addition, of one removal, and of one regrouped entry.\<close>

definition addEvents :: "jsval \<times> entry \<Rightarrow> event list" where
  "addEvents f = [Event Add (Some (fst f)) (entry_group (snd f)) Undefined,
                  Event RemoteAdd (Some (fst f)) (entry_group (snd f)) Undefined]"

definition removeEvents :: "jsval \<times> entry \<Rightarrow> event list" where
  "removeEvents f = [Event Remove (Some (fst f)) (entry_group (snd f)) Undefined,
                     Event RemoteRemove (Some (fst f)) (entry_group (snd f)) Undefined]"

definition regroupEvents :: "index \<Rightarrow> entry list \<Rightarrow> entry list \<Rightarrow> entry \<Rightarrow> event list" where
  "regroupEvents m new old ent =
     (case (find (\<lambda>e. entry_id e = entry_id ent) old, find (\<lambda>e. entry_id e = entry_id ent) new) of
        (Some oldEnt, Some newEnt) \<Rightarrow>
          (if entry_group newEnt \<noteq> entry_group oldEnt
           then [Event Regroup (map_of m (IdV (entry_id ent))) (entry_group newEnt) (entry_group oldEnt),
                 Event RemoteRegroup (map_of m (IdV (entry_id ent))) (entry_group newEnt) (entry_group oldEnt)]
           else [])
      | _ \<Rightarrow> [])"

text \<open>
  The pipeline of one entry completes when its load resolves and the activation of the
  loaded element resolves.
\<close>

definition pipeline_ok :: "bool \<Rightarrow> cache \<Rightarrow> entry \<Rightarrow> bool" where
  "pipeline_ok live c en =
     (case c (entry_id en) of
        Inl e \<Rightarrow> False
      | Inr ele \<Rightarrow> maybeSynchElement live ele = Inr ele)"

subsection \<open>Concrete instances\<close>

text \<open>
  Three elements, a cache that knows exactly the first two, and a live set over given
  entries and a given \<open>Map\<close>.
\<close>

definition eleA :: element where
  "eleA = \<lparr>ele_id = ''A'', ele_live = False, ele_synch = None\<rparr>"

definition eleB :: element where
  "eleB = \<lparr>ele_id = ''B'', ele_live = True, ele_synch = None\<rparr>"

definition eleC :: element where
  "eleC = \<lparr>ele_id = ''C'', ele_live = True, ele_synch = None\<rparr>"

definition cacheAB :: cache where
  "cacheAB i = (if i = ''A'' then Inr eleA else if i = ''B'' then Inr eleB else Inl HydrationFailure)"

definition setAB :: "entry list \<Rightarrow> index \<Rightarrow> elementset" where
  "setAB ens m =
     \<lparr>cache = cacheAB, emitter = [],
      syncher = \<lparr>sy_entries = ens, sy_live = True, sy_listeners = 1, sy_fail = None\<rparr>,
      elementsById = m\<rparr>"

definition entryOf :: "ident \<Rightarrow> group \<Rightarrow> entry" where
  "entryOf i g = \<lparr>entry_id = i, entry_group = g\<rparr>"

definition handleOf :: "entry list option \<Rightarrow> syncher_handle" where
  "handleOf ens = \<lparr>h_entries = ens, h_live = False, h_listeners = 0, h_fail = None\<rparr>"

lemmas ex_defs = eleA_def eleB_def cacheAB_def setAB_def entryOf_def handleOf_def no_opts_def

lemmas run_defs = has_def get_def size_es_def map_has_def map_get_def map_set_def map_delete_def
  emit_def Let_def push_def pullById_def mergeById_def maybeSynchElement_def

section \<open>Properties\<close>

subsection \<open>The Map and the publication log\<close>

lemma map_has_set: "map_has (map_set k v m) k' = (k' = k \<or> map_has m k')"
  by (simp add: map_has_def map_set_def update_conv')

lemma length_update_fresh:
  "k \<notin> fst ` set al \<Longrightarrow> length (AList.update k v al) = Suc (length al)"
  by (induction al) auto

lemma length_map_set: "\<not> map_has m k \<Longrightarrow> length (map_set k v m) = Suc (length m)"
  by (simp add: map_has_def map_set_def length_update_fresh map_of_eq_None_iff)

text \<open>The keys stay distinct, so the length of the list is the size of the \<open>Map\<close>.\<close>

lemma distinct_keys_preserved:
  "distinct (map fst m) \<Longrightarrow>
   distinct (map fst (map_set k v m)) \<and> distinct (map fst (map_delete k m))"
  by (simp add: map_set_def map_delete_def distinct_update distinct_delete)

text \<open>
  No key of the \<open>Map\<close> is an element object when every key was produced by \<open>getId\<close>;
  deleting by an element object then leaves the \<open>Map\<close> as it is. This is what
  \<open>remove( f.ele, f.entry )\<close> of the remoteupdate handler does.
\<close>

lemma map_delete_object_key:
  "\<forall>k\<in>fst ` set m. \<exists>i. k = IdV i \<Longrightarrow> map_delete (EleV e) m = m"
  by (auto simp: map_delete_def intro!: delete_id)

lemma dequeueEmits_log:
  "dequeueEmits evs s = s\<lparr>emitter := emitter s @ map (\<lambda>ev. (ev, elementsById s)) evs\<rparr>"
  by (induction evs arbitrary: s) (auto simp: emit_def)

subsection \<open>Construction\<close>

text \<open>
  C7. Given the three collaborators, construction throws the configuration error, and
  yields no instance, when the syncher does not declare \<open>entries\<close>. When it does (an
  empty list included), construction succeeds with an empty \<open>Map\<close>, the collaborators as
  given, and one more handler subscribed to the syncher's remoteupdate feed.
\<close>

theorem ElementSet_requires_entries:
  assumes "o_emitter opts = Some em" and "o_syncher opts = Some h" and "o_cache opts = Some c"
  shows "(h_entries h = None \<longrightarrow> ElementSet opts = Inl InvalidConfiguration) \<and>
         (\<forall>ens. h_entries h = Some ens \<longrightarrow>
            (\<exists>s. ElementSet opts = Inr s \<and> elementsById s = [] \<and> cache s = c \<and>
                 emitter s = em \<and> sy_entries (syncher s) = ens \<and>
                 sy_listeners (syncher s) = Suc (h_listeners h)))"
  using assms by (simp add: ElementSet_def)

theorem ElementSet_requires_entries_witness:
  "ElementSet \<lparr>o_emitter = Some [], o_syncher = Some (handleOf None), o_cache = Some cacheAB\<rparr>
     = Inl InvalidConfiguration \<and>
   (\<exists>s. ElementSet \<lparr>o_emitter = Some [], o_syncher = Some (handleOf (Some [])), o_cache = Some cacheAB\<rparr>
           = Inr s \<and> elementsById s = [] \<and> sy_listeners (syncher s) = 1)"
  using ElementSet_requires_entries[of
      "\<lparr>o_emitter = Some [], o_syncher = Some (handleOf None), o_cache = Some cacheAB\<rparr>"
      "[]" "handleOf None" cacheAB]
    ElementSet_requires_entries[of
      "\<lparr>o_emitter = Some [], o_syncher = Some (handleOf (Some [])), o_cache = Some cacheAB\<rparr>"
      "[]" "handleOf (Some [])" cacheAB]
  by (auto simp: handleOf_def)

subsection \<open>Local additions\<close>

text \<open>
  C3. \<open>add( x )\<close> for an \<open>x\<close> whose id the set already has (\<open>has\<close>, which reads the \<open>Map\<close>)
  resolves at once and leaves the whole state as it is: nothing is published, nothing is
  written. Hence, for an \<open>x\<close> the set does not have, \<open>add( x )\<close> followed by \<open>add( x )\<close>
  leaves the size one larger than before the first call, and the second call resolves
  without changing the state reached by the first.
\<close>

theorem add_twice:
  "(has s x \<longrightarrow> add s x opts = (Resolves (), s)) \<and>
   (\<not> has s x \<longrightarrow>
      size_es (snd (add s x opts)) = size_es s + 1 \<and>
      add (snd (add s x opts)) x opts' = (Resolves (), snd (add s x opts)))"
proof (intro conjI impI)
  assume "has s x"
  then show "add s x opts = (Resolves (), s)" by (simp add: add_def)
next
  assume n: "\<not> has s x"
  have idx: "elementsById (snd (add s x opts)) = map_set (IdV (getId x)) x (elementsById s)"
    using n by (simp add: add_def Let_def emit_def split: prod.splits)
  show "size_es (snd (add s x opts)) = size_es s + 1"
    using n by (simp add: size_es_def idx length_map_set has_def)
  have "has (snd (add s x opts)) x"
    by (simp add: has_def idx map_has_set)
  then show "add (snd (add s x opts)) x opts' = (Resolves (), snd (add s x opts))"
    by (simp add: add_def)
qed

theorem add_twice_witness:
  "\<not> has (setAB [] []) (EleV eleA) \<and>
   size_es (snd (add (setAB [] []) (EleV eleA) no_opts)) = 1 \<and>
   add (snd (add (setAB [] []) (EleV eleA) no_opts)) (EleV eleA) no_opts =
     (Resolves (), snd (add (setAB [] []) (EleV eleA) no_opts)) \<and>
   has (setAB [entryOf ''B'' Null] [(IdV ''B'', EleV eleB)]) (IdV ''B'') \<and>
   add (setAB [entryOf ''B'' Null] [(IdV ''B'', EleV eleB)]) (IdV ''B'') no_opts =
     (Resolves (), setAB [entryOf ''B'' Null] [(IdV ''B'', EleV eleB)])"
  using add_twice[of "setAB [] []" "EleV eleA" no_opts no_opts]
    add_twice[of "setAB [entryOf ''B'' Null] [(IdV ''B'', EleV eleB)]" "IdV ''B''" no_opts no_opts]
  by (simp add: ex_defs has_def map_has_def size_es_def)

subsection \<open>Local removals\<close>

text \<open>
  C4, as the code has it. \<open>remove\<close> for an id that the \<open>Map\<close> holds and that has no entry
  in \<open>entries\<close> throws a \<open>TypeError\<close> synchronously. By then the id has been deleted from
  the \<open>Map\<close>, since the deletion comes before the lookup; nothing is sent to the store and
  nothing is published.
\<close>

theorem remove_missing_entry:
  assumes "has s x" and "find (\<lambda>en. entry_id en = getId x) (sy_entries (syncher s)) = None"
  shows "remove s x opts =
           (Throws TypeError, s\<lparr>elementsById := map_delete (IdV (getId x)) (elementsById s)\<rparr>) \<and>
         \<not> has (snd (remove s x opts)) x \<and>
         emitter (snd (remove s x opts)) = emitter s \<and>
         syncher (snd (remove s x opts)) = syncher s"
  using assms by (simp add: remove_def Let_def has_def map_has_def map_delete_def delete_conv')

theorem remove_missing_entry_witness:
  "has (setAB [] [(IdV ''B'', EleV eleB)]) (IdV ''B'') \<and>
   find (\<lambda>en. entry_id en = ''B'') (sy_entries (syncher (setAB [] [(IdV ''B'', EleV eleB)]))) = None \<and>
   remove (setAB [] [(IdV ''B'', EleV eleB)]) (IdV ''B'') no_opts = (Throws TypeError, setAB [] [])"
  using remove_missing_entry[of "setAB [] [(IdV ''B'', EleV eleB)]" "IdV ''B''" no_opts]
  by (simp add: ex_defs has_def map_has_def map_delete_def)

text \<open>
  C4 as stated fails: with \<open>B\<close> in the \<open>Map\<close> and no entries, \<open>remove( 'B' )\<close> throws instead
  of returning a rejected promise, and \<open>B\<close> is gone from the \<open>Map\<close> afterwards.
\<close>

theorem remove_missing_entry_counterexample:
  "has (setAB [] [(IdV ''B'', EleV eleB)]) (IdV ''B'') \<and>
   fst (remove (setAB [] [(IdV ''B'', EleV eleB)]) (IdV ''B'') no_opts) = Throws TypeError \<and>
   elementsById (snd (remove (setAB [] [(IdV ''B'', EleV eleB)]) (IdV ''B'') no_opts)) = []"
  by (simp add: remove_def ex_defs run_defs)

subsection \<open>Views\<close>

lemma filter_nonNil_concat:
  "filter_nonNil (map f xs) = concat (map (\<lambda>x. case f x of None \<Rightarrow> [] | Some v \<Rightarrow> [v]) xs)"
  by (induction xs) (auto split: option.splits)

lemma matches_nil: "isNil g \<Longrightarrow> matches g en"
  by (auto simp: matches_def loose_eq_def isNil_def)

lemma matches_Tag_fun: "matches (Tag t) = (\<lambda>en. entry_group en = Tag t)"
  by (rule ext) (auto simp: matches_def loose_eq_def isNil_def)

lemma filter_matches_nil: "isNil g \<Longrightarrow> filter (matches g) ens = ens"
  by (simp add: matches_nil)

text \<open>
  C6. Without a filter, \<open>elements\<close> returns the hydrated objects of all entries; with a
  tag \<open>t\<close> it returns the hydrated objects of exactly the entries whose group is \<open>t\<close>. Both
  are in entry order and skip an entry whose id the \<open>Map\<close> does not hold.
\<close>

theorem elements_view:
  "elements s Undefined = hydrated s (sy_entries (syncher s)) \<and>
   elements s (Tag t) =
     hydrated s (filter (\<lambda>en. entry_group en = Tag t) (sy_entries (syncher s)))"
  by (simp add: elements_def hydrated_def filter_nonNil_concat get_def map_get_def
      matches_Tag_fun filter_matches_nil isNil_def)

theorem elements_view_witness:
  "elements (setAB [entryOf ''A'' (Tag ''a''), entryOf ''B'' (Tag ''b'')]
      [(IdV ''B'', EleV eleB), (IdV ''A'', EleV eleA)]) (Tag ''a'') = [EleV eleA] \<and>
   elements (setAB [entryOf ''A'' (Tag ''a''), entryOf ''B'' (Tag ''b'')]
      [(IdV ''B'', EleV eleB), (IdV ''A'', EleV eleA)]) Undefined = [EleV eleA, EleV eleB] \<and>
   elements (setAB [entryOf ''A'' (Tag ''a''), entryOf ''B'' (Tag ''b'')]
      [(IdV ''B'', EleV eleB)]) Undefined = [EleV eleB]"
  using elements_view[of "setAB [entryOf ''A'' (Tag ''a''), entryOf ''B'' (Tag ''b'')]
      [(IdV ''B'', EleV eleB), (IdV ''A'', EleV eleA)]" "''a''"]
    elements_view[of "setAB [entryOf ''A'' (Tag ''a''), entryOf ''B'' (Tag ''b'')]
      [(IdV ''B'', EleV eleB)]" "''a''"]
  by (simp add: ex_defs hydrated_def)

text \<open>
  C9. \<open>elements( null )\<close> is \<open>elements()\<close>: the hydrated objects of all entries in entry
  order, whatever their stored group.
\<close>

theorem elements_null:
  "elements s Null = elements s Undefined \<and>
   elements s Null = hydrated s (sy_entries (syncher s))"
  by (simp add: elements_def hydrated_def filter_nonNil_concat get_def map_get_def
      filter_matches_nil isNil_def)

theorem elements_null_witness:
  "elements (setAB [entryOf ''A'' (Tag ''a''), entryOf ''B'' Null]
      [(IdV ''A'', EleV eleA), (IdV ''B'', EleV eleB)]) Null = [EleV eleA, EleV eleB]"
  using elements_null[of "setAB [entryOf ''A'' (Tag ''a''), entryOf ''B'' Null]
      [(IdV ''A'', EleV eleA), (IdV ''B'', EleV eleB)]"]
  by (simp add: elements_def matches_def loose_eq_def isNil_def hydrated_def ex_defs run_defs)

subsection \<open>Groups\<close>

lemma find_filter_hd:
  "find P xs = (case filter P xs of [] \<Rightarrow> None | x # _ \<Rightarrow> Some x)"
  by (induction xs) auto

lemma find_None_iff_image: "(find (\<lambda>en. f en = i) xs = None) = (i \<notin> f ` set xs)"
  by (auto simp: find_None_iff)

text \<open>
  C10, as the code has it. \<open>group( x )\<close> returns \<open>undefined\<close> when the \<open>Map\<close> does not hold
  the id of \<open>x\<close>, whatever the entries are. When the \<open>Map\<close> holds the id, it reads the
  first entry with that id. It throws exactly when the \<open>Map\<close> holds the id and no entry
  has it. It returns \<open>undefined\<close> exactly when the \<open>Map\<close> does not hold the id or the first
  entry with the id has no group.
\<close>

theorem group_semantics:
  "(\<not> has s x \<longrightarrow> group_es s x = Returns Undefined) \<and>
   (has s x \<longrightarrow>
      group_es s x =
        (case find (\<lambda>en. entry_id en = getId x) (sy_entries (syncher s)) of
           None \<Rightarrow> Throws TypeError
         | Some en \<Rightarrow> Returns (entry_group en))) \<and>
   ((group_es s x = Throws TypeError) =
      (has s x \<and> getId x \<notin> entry_id ` set (sy_entries (syncher s)))) \<and>
   ((group_es s x = Returns Undefined) =
      (\<not> has s x \<or>
       (\<exists>en. find (\<lambda>en. entry_id en = getId x) (sy_entries (syncher s)) = Some en \<and>
             entry_group en = Undefined)))"
  by (auto simp: group_es_def find_filter_hd find_None_iff_image[symmetric]
      split: list.splits)

theorem group_semantics_witness:
  "\<not> has (setAB [entryOf ''A'' (Tag ''g'')] []) (IdV ''A'') \<and>
   group_es (setAB [entryOf ''A'' (Tag ''g'')] []) (IdV ''A'') = Returns Undefined \<and>
   has (setAB [entryOf ''A'' (Tag ''g'')] [(IdV ''A'', EleV eleA)]) (IdV ''A'') \<and>
   group_es (setAB [entryOf ''A'' (Tag ''g'')] [(IdV ''A'', EleV eleA)]) (IdV ''A'') = Returns (Tag ''g'') \<and>
   has (setAB [] [(IdV ''A'', EleV eleA)]) (IdV ''A'') \<and>
   group_es (setAB [] [(IdV ''A'', EleV eleA)]) (IdV ''A'') = Throws TypeError"
  using group_semantics[of "setAB [entryOf ''A'' (Tag ''g'')] []" "IdV ''A''"]
    group_semantics[of "setAB [entryOf ''A'' (Tag ''g'')] [(IdV ''A'', EleV eleA)]" "IdV ''A''"]
    group_semantics[of "setAB [] [(IdV ''A'', EleV eleA)]" "IdV ''A''"]
  by (simp add: ex_defs has_def map_has_def)

text \<open>
  C10 as stated fails: after \<open>add( A )\<close> without a group on an empty set, \<open>A\<close> is in the
  \<open>Map\<close>, its entry has no group, and \<open>group( A )\<close> returns \<open>undefined\<close>.
\<close>

theorem group_undefined_counterexample:
  "has (snd (add (setAB [] []) (EleV eleA) no_opts)) (EleV eleA) \<and>
   sy_entries (syncher (snd (add (setAB [] []) (EleV eleA) no_opts))) = [entryOf ''A'' Undefined] \<and>
   group_es (snd (add (setAB [] []) (EleV eleA) no_opts)) (EleV eleA) = Returns Undefined"
  by (simp add: add_def group_es_def ex_defs run_defs)

subsection \<open>Regrouping\<close>

lemma filter_patch_first:
  "i \<in> entry_id ` set ens \<Longrightarrow>
   \<exists>en rest. filter (\<lambda>e. entry_id e = i) (patch_first i g ens) = en # rest \<and> entry_group en = g"
  by (induction ens) auto

lemma regroup_resolves:
  assumes "has s x" "getId x \<in> entry_id ` set (sy_entries (syncher s))"
    "sy_fail (syncher s) = None"
  shows "fst (regroup s x (Some opts)) = Resolves ()"
    and "elementsById (snd (regroup s x (Some opts))) = elementsById s"
    and "sy_entries (syncher (snd (regroup s x (Some opts)))) =
           patch_first (getId x) (if opt_group opts = Undefined then Null else opt_group opts)
             (sy_entries (syncher s))"
proof -
  from assms(2) obtain en rest where
    "filter (\<lambda>e. entry_id e = getId x) (sy_entries (syncher s)) = en # rest"
    by (cases "filter (\<lambda>e. entry_id e = getId x) (sy_entries (syncher s))")
       (auto simp: filter_empty_conv)
  then have g: "group_es s x = Returns (entry_group en)"
    using assms(1) by (simp add: group_es_def)
  show "fst (regroup s x (Some opts)) = Resolves ()"
    using assms(1,3) g by (simp add: regroup_def mergeById_def Let_def)
  show "elementsById (snd (regroup s x (Some opts))) = elementsById s"
    using assms(1,3) g by (simp add: regroup_def mergeById_def Let_def emit_def)
  show "sy_entries (syncher (snd (regroup s x (Some opts)))) =
           patch_first (getId x) (if opt_group opts = Undefined then Null else opt_group opts)
             (sy_entries (syncher s))"
    using assms(1,3) g by (simp add: regroup_def mergeById_def Let_def emit_def)
qed

lemma group_after_regroup:
  assumes "has s x" "getId x \<in> entry_id ` set (sy_entries (syncher s))"
    "sy_fail (syncher s) = None"
  shows "group_es (snd (regroup s x (Some opts))) x =
           Returns (if opt_group opts = Undefined then Null else opt_group opts)"
proof -
  let ?s' = "snd (regroup s x (Some opts))"
  let ?g = "if opt_group opts = Undefined then Null else opt_group opts"
  have h: "has ?s' x"
    using assms(1) regroup_resolves(2)[OF assms] by (simp add: has_def)
  obtain en rest where
    "filter (\<lambda>e. entry_id e = getId x) (patch_first (getId x) ?g (sy_entries (syncher s))) = en # rest"
    "entry_group en = ?g"
    using filter_patch_first[OF assms(2)] by blast
  then show ?thesis
    using h regroup_resolves(3)[OF assms, of opts] by (simp add: group_es_def)
qed

text \<open>
  C5. For an \<open>x\<close> that the set has and that has an entry, and a store that accepts the
  merge: \<open>regroup( x, { group: g } )\<close> resolves and \<open>group( x )\<close> then returns \<open>g\<close>;
  \<open>regroup( x, { group: undefined } )\<close> resolves and \<open>group( x )\<close> then returns \<open>null\<close>.
\<close>

theorem regroup_round_trip:
  assumes "has s x" and "getId x \<in> entry_id ` set (sy_entries (syncher s))"
    and "sy_fail (syncher s) = None"
  shows "fst (regroup s x (Some \<lparr>opt_silent = sil, opt_group = Tag g\<rparr>)) = Resolves () \<and>
         group_es (snd (regroup s x (Some \<lparr>opt_silent = sil, opt_group = Tag g\<rparr>))) x
           = Returns (Tag g) \<and>
         fst (regroup s x (Some \<lparr>opt_silent = sil, opt_group = Undefined\<rparr>)) = Resolves () \<and>
         group_es (snd (regroup s x (Some \<lparr>opt_silent = sil, opt_group = Undefined\<rparr>))) x
           = Returns Null"
  using regroup_resolves(1)[OF assms] group_after_regroup[OF assms]
  by simp

theorem regroup_round_trip_witness:
  "has (setAB [entryOf ''A'' (Tag ''g'')] [(IdV ''A'', EleV eleA)]) (EleV eleA) \<and>
   getId (EleV eleA) \<in> entry_id ` set (sy_entries (syncher (setAB [entryOf ''A'' (Tag ''g'')] [(IdV ''A'', EleV eleA)]))) \<and>
   sy_fail (syncher (setAB [entryOf ''A'' (Tag ''g'')] [(IdV ''A'', EleV eleA)])) = None \<and>
   group_es (snd (regroup (setAB [entryOf ''A'' (Tag ''g'')] [(IdV ''A'', EleV eleA)]) (EleV eleA)
      (Some \<lparr>opt_silent = False, opt_group = Tag ''h''\<rparr>))) (EleV eleA) = Returns (Tag ''h'') \<and>
   group_es (snd (regroup (setAB [entryOf ''A'' (Tag ''g'')] [(IdV ''A'', EleV eleA)]) (EleV eleA)
      (Some \<lparr>opt_silent = False, opt_group = Undefined\<rparr>))) (EleV eleA) = Returns Null"
  using regroup_round_trip[of "setAB [entryOf ''A'' (Tag ''g'')] [(IdV ''A'', EleV eleA)]" "EleV eleA" False "''h''"]
  by (simp add: ex_defs has_def map_has_def)

subsection \<open>Bulk hydration\<close>

lemma fillInEntry_keys:
  "map_has m k \<Longrightarrow> map_has (snd (fillInEntry live c en m)) k"
  by (simp add: fillInEntry_def Let_def map_has_set split: sum.splits)

lemma fillInEntries_Cons_snd:
  "snd (fillInEntries live c (en # ens) m) =
     snd (fillInEntries live c ens (snd (fillInEntry live c en m)))"
  by (simp split: prod.splits)

lemma fillInEntries_keys:
  "map_has m k \<Longrightarrow> map_has (snd (fillInEntries live c ens m)) k"
proof (induction ens arbitrary: m)
  case Nil
  then show ?case by simp
next
  case (Cons en ens)
  have "map_has (snd (fillInEntry live c en m)) k"
    using Cons.prems by (rule fillInEntry_keys)
  then have "map_has (snd (fillInEntries live c ens (snd (fillInEntry live c en m)))) k"
    by (rule Cons.IH)
  then show ?case by (simp only: fillInEntries_Cons_snd)
qed

lemma maybeSynchElement_same: "maybeSynchElement live ele = Inr ele' \<Longrightarrow> ele' = ele"
  by (auto simp: maybeSynchElement_def split: if_splits option.splits)

lemma fillInEntry_None:
  "(fst (fillInEntry live c en m) = None) = pipeline_ok live c en"
  by (auto simp: fillInEntry_def pipeline_ok_def Let_def split: sum.splits
      dest: maybeSynchElement_same)

lemma fillInEntry_has:
  "c (entry_id en) = Inr ele \<Longrightarrow> map_has (snd (fillInEntry live c en m)) (IdV (ele_id ele))"
  by (simp add: fillInEntry_def Let_def map_has_set split: sum.splits)

lemma fillInEntries_None:
  "(fst (fillInEntries live c ens m) = None) = (\<forall>en\<in>set ens. pipeline_ok live c en)"
proof (induction ens arbitrary: m)
  case Nil
  then show ?case by simp
next
  case (Cons en ens)
  show ?case
    using Cons.IH[of "snd (fillInEntry live c en m)"] fillInEntry_None[of live c en m]
    by (auto split: prod.splits option.splits)
qed

lemma fillInEntries_has:
  "en \<in> set ens \<Longrightarrow> c (entry_id en) = Inr ele \<Longrightarrow>
   map_has (snd (fillInEntries live c ens m)) (IdV (ele_id ele))"
proof (induction ens arbitrary: m)
  case Nil
  then show ?case by simp
next
  case (Cons a ens)
  show ?case
  proof (cases "en = a")
    case True
    then have "map_has (snd (fillInEntry live c a m)) (IdV (ele_id ele))"
      using Cons.prems(2) by (simp add: fillInEntry_has)
    then have "map_has (snd (fillInEntries live c ens (snd (fillInEntry live c a m)))) (IdV (ele_id ele))"
      by (rule fillInEntries_keys)
    then show ?thesis by (simp only: fillInEntries_Cons_snd)
  next
    case False
    then have "en \<in> set ens" using Cons.prems(1) by simp
    then have "map_has (snd (fillInEntries live c ens (snd (fillInEntry live c a m)))) (IdV (ele_id ele))"
      using Cons.prems(2) by (rule Cons.IH)
    then show ?thesis by (simp only: fillInEntries_Cons_snd)
  qed
qed

lemma loadElements_cases:
  "loadElements s =
     (case fst (fillInEntries (sy_live (syncher s)) (cache s) (sy_entries (syncher s)) (elementsById s)) of
        Some e \<Rightarrow> (Rejects e,
           s\<lparr>elementsById := snd (fillInEntries (sy_live (syncher s)) (cache s) (sy_entries (syncher s)) (elementsById s))\<rparr>)
      | None \<Rightarrow> (Resolves (),
           emit (Event LoadElements None Undefined Undefined)
            (s\<lparr>elementsById := snd (fillInEntries (sy_live (syncher s)) (cache s) (sy_entries (syncher s)) (elementsById s))\<rparr>)))"
  by (simp add: loadElements_def split: prod.splits option.splits)

text \<open>
  C8. \<open>loadElements\<close> resolves exactly when the pipeline of every entry completes. When
  it resolves, it has published one event and no other, \<open>loadelements\<close>, and the \<open>Map\<close>
  that event sees is the final one, which holds the loaded element of every entry. When
  it does not resolve it rejects and has published nothing. With no entries it resolves,
  publishes the one event and leaves the size as it was.
\<close>

theorem loadElements_single_event:
  "((fst (loadElements s) = Resolves ()) =
      (\<forall>en\<in>set (sy_entries (syncher s)). pipeline_ok (sy_live (syncher s)) (cache s) en)) \<and>
   (fst (loadElements s) = Resolves () \<longrightarrow>
      emitter (snd (loadElements s)) =
        emitter s @ [(Event LoadElements None Undefined Undefined, elementsById (snd (loadElements s)))] \<and>
      (\<forall>en\<in>set (sy_entries (syncher s)).
         \<exists>ele. cache s (entry_id en) = Inr ele \<and> has (snd (loadElements s)) (EleV ele))) \<and>
   (fst (loadElements s) \<noteq> Resolves () \<longrightarrow>
      (\<exists>e. fst (loadElements s) = Rejects e) \<and> emitter (snd (loadElements s)) = emitter s) \<and>
   (sy_entries (syncher s) = [] \<longrightarrow>
      loadElements s = (Resolves (), emit (Event LoadElements None Undefined Undefined) s) \<and>
      size_es (snd (loadElements s)) = size_es s)"
proof (intro conjI impI)
  let ?f = "fillInEntries (sy_live (syncher s)) (cache s) (sy_entries (syncher s)) (elementsById s)"
  show "(fst (loadElements s) = Resolves ()) =
      (\<forall>en\<in>set (sy_entries (syncher s)). pipeline_ok (sy_live (syncher s)) (cache s) en)"
    unfolding fillInEntries_None[symmetric, of _ _ _ "elementsById s"]
    by (simp add: loadElements_cases split: option.splits)
  {
    assume r: "fst (loadElements s) = Resolves ()"
    then have n: "fst ?f = None"
      by (simp add: loadElements_cases split: option.splits)
    then show "emitter (snd (loadElements s)) =
        emitter s @ [(Event LoadElements None Undefined Undefined, elementsById (snd (loadElements s)))]"
      by (simp add: loadElements_cases emit_def)
    have idx: "elementsById (snd (loadElements s)) = snd ?f"
      using n by (simp add: loadElements_cases emit_def)
    show "\<forall>en\<in>set (sy_entries (syncher s)).
         \<exists>ele. cache s (entry_id en) = Inr ele \<and> has (snd (loadElements s)) (EleV ele)"
    proof
      fix en assume en: "en \<in> set (sy_entries (syncher s))"
      with n have "pipeline_ok (sy_live (syncher s)) (cache s) en"
        by (simp add: fillInEntries_None)
      then obtain ele where l: "cache s (entry_id en) = Inr ele"
        by (auto simp: pipeline_ok_def split: sum.splits)
      have "map_has (snd ?f) (IdV (ele_id ele))"
        using en l by (rule fillInEntries_has)
      then show "\<exists>ele. cache s (entry_id en) = Inr ele \<and> has (snd (loadElements s)) (EleV ele)"
        using l by (auto simp: has_def idx)
    qed
  }
  {
    assume r: "fst (loadElements s) \<noteq> Resolves ()"
    then show "\<exists>e. fst (loadElements s) = Rejects e"
      by (simp add: loadElements_cases split: option.splits)
    from r show "emitter (snd (loadElements s)) = emitter s"
      by (simp add: loadElements_cases split: option.splits)
  }
  {
    assume e: "sy_entries (syncher s) = []"
    then show "loadElements s = (Resolves (), emit (Event LoadElements None Undefined Undefined) s)"
      by (simp add: loadElements_def)
    from e show "size_es (snd (loadElements s)) = size_es s"
      by (simp add: loadElements_def size_es_def emit_def)
  }
qed

theorem loadElements_single_event_witness:
  "fst (loadElements (setAB [entryOf ''A'' Null, entryOf ''B'' Null] [])) = Resolves () \<and>
   emitter (snd (loadElements (setAB [entryOf ''A'' Null, entryOf ''B'' Null] []))) =
     [(Event LoadElements None Undefined Undefined, [(IdV ''A'', EleV eleA), (IdV ''B'', EleV eleB)])] \<and>
   fst (loadElements (setAB [entryOf ''A'' Null, entryOf ''C'' Null] [])) = Rejects HydrationFailure \<and>
   emitter (snd (loadElements (setAB [entryOf ''A'' Null, entryOf ''C'' Null] []))) = [] \<and>
   loadElements (setAB [] []) =
     (Resolves (), emit (Event LoadElements None Undefined Undefined) (setAB [] [])) \<and>
   size_es (snd (loadElements (setAB [] []))) = 0"
  using loadElements_single_event[of "setAB [entryOf ''A'' Null, entryOf ''B'' Null] []"]
    loadElements_single_event[of "setAB [entryOf ''A'' Null, entryOf ''C'' Null] []"]
    loadElements_single_event[of "setAB [] []"]
  by (simp add: loadElements_def fillInEntry_def ex_defs run_defs)

subsection \<open>Remote reconciliation\<close>

lemma fillEntries_reject:
  "en \<in> set ens \<Longrightarrow> c (entry_id en) = Inl e \<Longrightarrow> \<exists>e'. fillEntries live c ens = Inl e'"
  by (induction ens) (auto split: sum.splits)

lemma fillEntries_entries: "fillEntries live c ens = Inr fa \<Longrightarrow> map snd fa = ens"
  by (induction ens arbitrary: fa) (auto split: sum.splits)

text \<open>
  C1. When the load of one added entry rejects, the handler's promise rejects and the
  state is the one before the diff: the \<open>Map\<close> has no insertion and no deletion, and the
  publication log has no new event.
\<close>

theorem remoteupdate_hydration_failure:
  assumes "en \<in> set (differenceBy new old entry_id)" and "cache s (entry_id en) = Inl e"
  shows "\<exists>e'. remoteupdate s (Some new) old = (Rejects e', s)"
proof -
  obtain e' where "fillEntries (sy_live (syncher s)) (cache s) (differenceBy new old entry_id) = Inl e'"
    using fillEntries_reject[where c = "cache s", OF assms] by blast
  then show ?thesis by (simp add: remoteupdate_def Let_def)
qed

theorem remoteupdate_hydration_failure_witness:
  "entryOf ''C'' Null \<in> set (differenceBy [entryOf ''A'' Null, entryOf ''C'' Null] [entryOf ''B'' Null] entry_id) \<and>
   cache (setAB [entryOf ''B'' Null] [(IdV ''B'', EleV eleB)]) (entry_id (entryOf ''C'' Null)) = Inl HydrationFailure \<and>
   remoteupdate (setAB [entryOf ''B'' Null] [(IdV ''B'', EleV eleB)])
      (Some [entryOf ''A'' Null, entryOf ''C'' Null]) [entryOf ''B'' Null] =
     (Rejects HydrationFailure, setAB [entryOf ''B'' Null] [(IdV ''B'', EleV eleB)])"
  using remoteupdate_hydration_failure[of "entryOf ''C'' Null" "[entryOf ''A'' Null, entryOf ''C'' Null]"
      "[entryOf ''B'' Null]" "setAB [entryOf ''B'' Null] [(IdV ''B'', EleV eleB)]" HydrationFailure]
  by (simp add: remoteupdate_def differenceBy_def ex_defs run_defs)

lemma commitAdded_snd:
  "snd (commitAdded fs (m, q)) = q @ concat (map addEvents fs)"
  by (induction fs arbitrary: m q) (auto simp: addEvents_def)

lemma commitRemoved_snd:
  "snd (commitRemoved fs (m, q)) = q @ concat (map removeEvents fs)"
  by (induction fs arbitrary: m q) (auto simp: removeEvents_def)

lemma commitAdded_queue:
  "\<exists>m'. commitAdded fs (m, q) = (m', q @ concat (map addEvents fs))"
  using commitAdded_snd[of fs m q] by (cases "commitAdded fs (m, q)") simp

lemma commitRemoved_queue:
  "\<exists>m'. commitRemoved fs (m, q) = (m', q @ concat (map removeEvents fs))"
  using commitRemoved_snd[of fs m q] by (cases "commitRemoved fs (m, q)") simp

lemma set_uniqBy: "set (uniqBy f seen xs) \<subseteq> set xs"
  by (induction xs arbitrary: seen) auto

lemma intersectionBy_member:
  "x \<in> set (intersectionBy xs ys f) \<Longrightarrow> f x \<in> f ` set xs \<and> f x \<in> f ` set ys"
  using set_uniqBy[of f "[]" "filter (\<lambda>x. f x \<in> set (map f ys)) xs"]
  by (auto simp: intersectionBy_def)

lemma find_Some_image: "i \<in> f ` set xs \<Longrightarrow> \<exists>x. find (\<lambda>e. f e = i) xs = Some x"
  by (cases "find (\<lambda>e. f e = i) xs") (auto simp: find_None_iff)

lemma regroupEmits_queue:
  "\<forall>ent\<in>set same. entry_id ent \<in> entry_id ` set old \<and> entry_id ent \<in> entry_id ` set new \<Longrightarrow>
   regroupEmits m new old same q = Inr (q @ concat (map (regroupEvents m new old) same))"
proof (induction same arbitrary: q)
  case Nil
  then show ?case by simp
next
  case (Cons ent rest)
  obtain oe where o: "find (\<lambda>e. entry_id e = entry_id ent) old = Some oe"
    using Cons.prems find_Some_image[of "entry_id ent" entry_id old] by auto
  obtain ne where n: "find (\<lambda>e. entry_id e = entry_id ent) new = Some ne"
    using Cons.prems find_Some_image[of "entry_id ent" entry_id new] by auto
  have r: "\<forall>ent\<in>set rest. entry_id ent \<in> entry_id ` set old \<and> entry_id ent \<in> entry_id ` set new"
    using Cons.prems by simp
  show ?case
    using o n Cons.IH[OF r] by (simp add: Let_def regroupEvents_def map_get_def)
qed

lemma uniqBy_distinct:
  "distinct (map f xs) \<Longrightarrow> set (map f xs) \<inter> set seen = {} \<Longrightarrow> uniqBy f seen xs = xs"
  by (induction xs arbitrary: seen) auto

text \<open>
  On an id-unique list the entries on both sides are the entries of the new list whose id
  the old list has.
\<close>

lemma intersectionBy_distinct:
  "distinct (map f xs) \<Longrightarrow> intersectionBy xs ys f = filter (\<lambda>x. f x \<in> f ` set ys) xs"
  by (simp add: intersectionBy_def uniqBy_distinct distinct_map_filter)

text \<open>
  A diff whose additions all load makes the handler resolve. The events it publishes are
  the add and remoteadd pair of every added entry, in the order of the added entries, then
  the remove and remoteremove pair of every removed entry that the \<open>Map\<close> held before the
  diff, then the regroup and remoteregroup pair of every entry on both sides whose group
  differs. Every one of them sees the \<open>Map\<close> the handler leaves behind.
\<close>

lemma remoteupdate_event_batch:
  assumes "fillEntries (sy_live (syncher s)) (cache s) (differenceBy new old entry_id) = Inr fa"
  shows "\<exists>m. commitRemoved (filledRemoved (elementsById s) (differenceBy old new entry_id))
               (commitAdded fa (elementsById s, [])) =
               (m, concat (map addEvents fa) @
                   concat (map removeEvents (filledRemoved (elementsById s) (differenceBy old new entry_id)))) \<and>
             remoteupdate s (Some new) old =
               (Resolves (),
                s\<lparr>elementsById := m,
                  emitter := emitter s @
                    map (\<lambda>ev. (ev, m))
                      (concat (map addEvents fa) @
                       concat (map removeEvents
                                 (filledRemoved (elementsById s) (differenceBy old new entry_id))) @
                       concat (map (regroupEvents m new old) (intersectionBy new old entry_id)))\<rparr>)"
proof -
  let ?fr = "filledRemoved (elementsById s) (differenceBy old new entry_id)"
  let ?same = "intersectionBy new old entry_id"
  obtain m1 where c1: "commitAdded fa (elementsById s, []) = (m1, concat (map addEvents fa))"
    using commitAdded_queue[of fa "elementsById s" "[]"] by auto
  obtain m2 where c2: "commitRemoved ?fr (m1, concat (map addEvents fa)) =
      (m2, concat (map addEvents fa) @ concat (map removeEvents ?fr))"
    using commitRemoved_queue[of ?fr m1] by auto
  have same: "\<forall>ent\<in>set ?same. entry_id ent \<in> entry_id ` set old \<and> entry_id ent \<in> entry_id ` set new"
    using intersectionBy_member[of _ new old entry_id] by blast
  have rg: "regroupEmits m2 new old ?same (concat (map addEvents fa) @ concat (map removeEvents ?fr)) =
      Inr ((concat (map addEvents fa) @ concat (map removeEvents ?fr)) @
           concat (map (regroupEvents m2 new old) ?same))"
    using same by (rule regroupEmits_queue)
  have "remoteupdate s (Some new) old =
      (Resolves (), dequeueEmits ((concat (map addEvents fa) @ concat (map removeEvents ?fr)) @
           concat (map (regroupEvents m2 new old) ?same)) (s\<lparr>elementsById := m2\<rparr>))"
    by (simp add: remoteupdate_def Let_def assms c1 c2 rg)
  then show ?thesis
    by (simp add: c1 c2 dequeueEmits_log)
qed

lemma commitAdded_keys:
  "\<forall>k\<in>fst ` set m. \<exists>i. k = IdV i \<Longrightarrow>
   \<forall>k\<in>fst ` set (fst (commitAdded fa (m, q))). \<exists>i. k = IdV i"
proof (induction fa arbitrary: m q)
  case Nil
  then show ?case by simp
next
  case (Cons f fa)
  obtain ele en where f: "f = (ele, en)" by (cases f)
  have "\<forall>k\<in>fst ` set (map_set (IdV (getId ele)) ele m). \<exists>i. k = IdV i"
    using Cons.prems by (auto simp: map_set_def dom_update)
  then show ?case
    using Cons.IH by (simp add: f)
qed

lemma commitAdded_has:
  "map_has m k \<Longrightarrow> map_has (fst (commitAdded fa (m, q))) k"
proof (induction fa arbitrary: m q)
  case Nil
  then show ?case by simp
next
  case (Cons f fa)
  obtain ele en where f: "f = (ele, en)" by (cases f)
  have "map_has (map_set (IdV (getId ele)) ele m) k"
    using Cons.prems by (simp add: map_has_set)
  then show ?case
    using Cons.IH by (simp add: f)
qed

text \<open>Deleting by element objects from a \<open>Map\<close> whose keys are ids deletes nothing.\<close>

lemma commitRemoved_objects:
  "\<forall>k\<in>fst ` set m. \<exists>i. k = IdV i \<Longrightarrow> \<forall>f\<in>set fr. \<exists>e. fst f = EleV e \<Longrightarrow>
   fst (commitRemoved fr (m, q)) = m"
proof (induction fr arbitrary: q)
  case Nil
  then show ?case by simp
next
  case (Cons f fr)
  obtain e en where f: "f = (EleV e, en)"
    using Cons.prems(2) by (cases f) auto
  have "map_delete (EleV e) m = m"
    using Cons.prems(1) by (rule map_delete_object_key)
  then show ?case
    using Cons.IH[OF Cons.prems(1)] Cons.prems(2) by (simp add: f)
qed

lemma filledRemoved_values:
  "f \<in> set (filledRemoved m ens) \<Longrightarrow> fst f \<in> snd ` set m"
proof (induction ens)
  case Nil
  then show ?case by simp
next
  case (Cons en ens)
  then show ?case
    by (auto simp: map_get_def split: option.splits if_splits dest!: map_of_SomeD intro: rev_image_eqI)
qed

lemma filledRemoved_member:
  "en \<in> set ens \<Longrightarrow> map_of m (IdV (entry_id en)) = Some (EleV e) \<Longrightarrow>
   (EleV e, en) \<in> set (filledRemoved m ens)"
  by (induction ens) (auto simp: map_get_def split: option.splits)

text \<open>
  C2. The handler publishes before the removals of the diff are applied, because it never
  applies them: \<open>remove( f.ele, f.entry )\<close> calls \<open>elementsById.delete\<close> with the element
  object, and the keys are ids. For a \<open>Map\<close> with ids as keys and element objects as
  values and a diff whose additions all load, the handler resolves and the \<open>Map\<close> it leaves
  is the \<open>Map\<close> after the additions alone. An entry that the diff removes and that the
  \<open>Map\<close> held is still held afterwards, and its \<open>remove\<close> event is published to listeners
  that still see it in the \<open>Map\<close>.
\<close>

theorem remoteupdate_removal_not_applied:
  assumes keys: "\<forall>k\<in>fst ` set (elementsById s). \<exists>i. k = IdV i"
    and vals: "\<forall>v\<in>snd ` set (elementsById s). \<exists>e. v = EleV e"
    and rem: "en \<in> set (differenceBy old new entry_id)"
    and held: "map_of (elementsById s) (IdV (entry_id en)) = Some (EleV e)"
    and fill: "fillEntries (sy_live (syncher s)) (cache s) (differenceBy new old entry_id) = Inr fa"
  shows "fst (remoteupdate s (Some new) old) = Resolves () \<and>
         elementsById (snd (remoteupdate s (Some new) old)) =
           fst (commitAdded fa (elementsById s, [])) \<and>
         has (snd (remoteupdate s (Some new) old)) (IdV (entry_id en)) \<and>
         (Event Remove (Some (EleV e)) (entry_group en) Undefined,
          elementsById (snd (remoteupdate s (Some new) old)))
           \<in> set (emitter (snd (remoteupdate s (Some new) old)))"
proof -
  let ?fr = "filledRemoved (elementsById s) (differenceBy old new entry_id)"
  let ?m1 = "fst (commitAdded fa (elementsById s, []))"
  obtain m where cm: "commitRemoved ?fr (commitAdded fa (elementsById s, [])) =
               (m, concat (map addEvents fa) @ concat (map removeEvents ?fr))"
    and ru: "remoteupdate s (Some new) old =
               (Resolves (),
                s\<lparr>elementsById := m,
                  emitter := emitter s @
                    map (\<lambda>ev. (ev, m))
                      (concat (map addEvents fa) @ concat (map removeEvents ?fr) @
                       concat (map (regroupEvents m new old) (intersectionBy new old entry_id)))\<rparr>)"
    using remoteupdate_event_batch[OF fill] by blast
  have k1: "\<forall>k\<in>fst ` set ?m1. \<exists>i. k = IdV i"
    using keys by (rule commitAdded_keys)
  have objs: "\<forall>f\<in>set ?fr. \<exists>e. fst f = EleV e"
    using vals filledRemoved_values[of _ "elementsById s" "differenceBy old new entry_id"] by blast
  have "fst (commitRemoved ?fr (?m1, snd (commitAdded fa (elementsById s, [])))) = ?m1"
    using k1 objs by (rule commitRemoved_objects)
  then have m: "m = ?m1"
    using cm by simp
  have "map_has (elementsById s) (IdV (entry_id en))"
    using held by (simp add: map_has_def)
  then have h: "map_has ?m1 (IdV (entry_id en))"
    by (rule commitAdded_has)
  have "(EleV e, en) \<in> set ?fr"
    using rem held by (rule filledRemoved_member)
  then have ev: "Event Remove (Some (EleV e)) (entry_group en) Undefined
      \<in> set (concat (map removeEvents ?fr))"
    by (force simp: removeEvents_def)
  show ?thesis
    using ru m h ev by (simp add: has_def image_Un)
qed

text \<open>
  The diff that adds \<open>A\<close>, removes \<open>B\<close> and regroups \<open>C\<close> on a set that holds \<open>B\<close> and \<open>C\<close>:
  the six events come in the order add, remoteadd, remove, remoteremove, regroup,
  remoteregroup, each sees a \<open>Map\<close> that still holds \<open>B\<close>, and the set has \<open>B\<close> afterwards.
\<close>

theorem remoteupdate_removal_not_applied_witness:
  "entryOf ''B'' Null \<in> set (differenceBy [entryOf ''B'' Null, entryOf ''C'' (Tag ''x'')]
       [entryOf ''A'' (Tag ''g''), entryOf ''C'' (Tag ''y'')] entry_id) \<and>
   remoteupdate (setAB [entryOf ''B'' Null, entryOf ''C'' (Tag ''x'')]
                   [(IdV ''B'', EleV eleB), (IdV ''C'', EleV eleC)])
      (Some [entryOf ''A'' (Tag ''g''), entryOf ''C'' (Tag ''y'')])
      [entryOf ''B'' Null, entryOf ''C'' (Tag ''x'')] =
     (Resolves (),
      (setAB [entryOf ''B'' Null, entryOf ''C'' (Tag ''x'')]
         [(IdV ''B'', EleV eleB), (IdV ''C'', EleV eleC), (IdV ''A'', EleV eleA)])
       \<lparr>emitter :=
          map (\<lambda>ev. (ev, [(IdV ''B'', EleV eleB), (IdV ''C'', EleV eleC), (IdV ''A'', EleV eleA)]))
            [Event Add (Some (EleV eleA)) (Tag ''g'') Undefined,
             Event RemoteAdd (Some (EleV eleA)) (Tag ''g'') Undefined,
             Event Remove (Some (EleV eleB)) Null Undefined,
             Event RemoteRemove (Some (EleV eleB)) Null Undefined,
             Event Regroup (Some (EleV eleC)) (Tag ''y'') (Tag ''x''),
             Event RemoteRegroup (Some (EleV eleC)) (Tag ''y'') (Tag ''x'')]\<rparr>) \<and>
   has (snd (remoteupdate (setAB [entryOf ''B'' Null, entryOf ''C'' (Tag ''x'')]
                   [(IdV ''B'', EleV eleB), (IdV ''C'', EleV eleC)])
      (Some [entryOf ''A'' (Tag ''g''), entryOf ''C'' (Tag ''y'')])
      [entryOf ''B'' Null, entryOf ''C'' (Tag ''x'')])) (IdV ''B'')"
  using remoteupdate_removal_not_applied[of
      "setAB [entryOf ''B'' Null, entryOf ''C'' (Tag ''x'')]
                   [(IdV ''B'', EleV eleB), (IdV ''C'', EleV eleC)]"
      "entryOf ''B'' Null"
      "[entryOf ''B'' Null, entryOf ''C'' (Tag ''x'')]"
      "[entryOf ''A'' (Tag ''g''), entryOf ''C'' (Tag ''y'')]"
      eleB "[(EleV eleA, entryOf ''A'' (Tag ''g''))]"]
  by (simp add: remoteupdate_def differenceBy_def intersectionBy_def eleC_def ex_defs run_defs)

end
